theory Spec2Isabelle
  imports Main "HOL-Library.Sublist"
begin

section \<open>Python strings\<close>

text \<open>
  A Python \<open>str\<close> is modelled as a \<^typ>\<open>string\<close> whose characters are the code points
  U+0000 to U+00FF (ASCII and the Latin-1 supplement).  On this alphabet \<open>str.lower\<close>,
  \<open>str.isspace\<close> and \<open>str.strip\<close> are closed and are written out below as CPython
  computes them.  \<open>str.upper\<close> leaves the alphabet at two code points (U+00B5 and
  U+00FF), where the model returns \<open>None\<close>, and maps U+00DF to the two letters \<open>SS\<close>.
\<close>

definition py_isspace :: "char \<Rightarrow> bool" where
  "py_isspace c =
     (let n = (of_char c :: nat)
      in (9 \<le> n \<and> n \<le> 13) \<or> (28 \<le> n \<and> n \<le> 32) \<or> n = 133 \<or> n = 160)"

definition py_strip :: "string \<Rightarrow> string" where
  "py_strip s = rev (dropWhile py_isspace (rev (dropWhile py_isspace s)))"

definition py_lower_char :: "char \<Rightarrow> char" where
  "py_lower_char c =
     (let n = (of_char c :: nat)
      in if (65 \<le> n \<and> n \<le> 90) \<or> (192 \<le> n \<and> n \<le> 214) \<or> (216 \<le> n \<and> n \<le> 222)
         then char_of (n + 32) else c)"

definition py_lower :: "string \<Rightarrow> string" where
  "py_lower s = map py_lower_char s"

definition py_upper_char :: "char \<Rightarrow> string option" where
  "py_upper_char c =
     (let n = (of_char c :: nat)
      in if (97 \<le> n \<and> n \<le> 122) \<or> (224 \<le> n \<and> n \<le> 246) \<or> (248 \<le> n \<and> n \<le> 254)
         then Some [char_of (n - 32)]
         else if n = 223 then Some ''SS''
         else if n = 181 \<or> n = 255 then None
         else Some [c])"

fun py_upper :: "string \<Rightarrow> string option" where
  "py_upper [] = Some []"
| "py_upper (c # cs) =
     (case py_upper_char c of
        None \<Rightarrow> None
      | Some u \<Rightarrow> (case py_upper cs of None \<Rightarrow> None | Some us \<Rightarrow> Some (u @ us)))"

definition is_ascii :: "char \<Rightarrow> bool" where
  "is_ascii c = ((of_char c :: nat) < 128)"

text \<open>\<open>sep.join(xs)\<close>.\<close>

fun py_join :: "string \<Rightarrow> string list \<Rightarrow> string" where
  "py_join sep [] = []"
| "py_join sep [x] = x"
| "py_join sep (x # y # ys) = x @ sep @ py_join sep (y # ys)"

text \<open>
  \<open>re.search(p, s) is not None\<close> for a pattern \<open>p\<close> without regular-expression
  metacharacters: the pattern occurs in \<open>s\<close> as a contiguous substring.  Every pattern of
  the keyword table is of this kind (\<open>literal_pattern\<close> below).
\<close>

fun starts_with :: "string \<Rightarrow> string \<Rightarrow> bool" where
  "starts_with s [] = True"
| "starts_with [] (p # ps) = False"
| "starts_with (c # cs) (p # ps) = (c = p \<and> starts_with cs ps)"

fun re_search :: "string \<Rightarrow> string \<Rightarrow> bool" where
  "re_search p [] = (p = [])"
| "re_search p (c # cs) = (starts_with (c # cs) p \<or> re_search p cs)"

definition literal_char :: "char \<Rightarrow> bool" where
  "literal_char c =
     (let n = (of_char c :: nat)
      in (97 \<le> n \<and> n \<le> 122) \<or> n = 32 \<or> n = 45)"

definition literal_pattern :: "string \<Rightarrow> bool" where
  "literal_pattern p = (p \<noteq> [] \<and> list_all literal_char p)"

section \<open>categorizer.py\<close>

definition PREDEFINED_CATEGORIES :: "string list" where
  "PREDEFINED_CATEGORIES =
     [''Theses & Dissertations'',
      ''Coursework & Term Papers'',
      ''Certificates & Diplomas'',
      ''Tests & Quizzes'',
      ''Answer Keys & Solutions'',
      ''Presentations'',
      ''Formal Documents & Correspondence'',
      ''Books & Textbooks'',
      ''Learning Materials & Study Guides'',
      ''Reports'']"

text \<open>The dictionary \<open>self._category_keywords\<close>, in insertion order.\<close>

definition category_keywords :: "(string \<times> string list) list" where
  "category_keywords =
     [(''Theses & Dissertations'', [''thesis'', ''dissertation'']),
      (''Coursework & Term Papers'', [''coursework'', ''term paper'', ''assignment'', ''essay'']),
      (''Certificates & Diplomas'', [''certificate'', ''diploma'', ''certification'', ''degree'']),
      (''Tests & Quizzes'', [''test'', ''quiz'', ''exam'', ''midterm'', ''final exam'']),
      (''Answer Keys & Solutions'', [''answer key'', ''solution'', ''solutions manual'']),
      (''Presentations'', [''presentation'', ''slides'', ''powerpoint'', ''keynote'']),
      (''Formal Documents & Correspondence'',
         [''letter'', ''memo'', ''memorandum'', ''contract'', ''agreement'', ''official document'']),
      (''Books & Textbooks'', [''book'', ''textbook'', ''manual'', ''e-book'']),
      (''Learning Materials & Study Guides'',
         [''study guide'', ''notes'', ''handout'', ''worksheet'', ''learning material'']),
      (''Reports'', [''report'', ''summary'', ''analysis'', ''findings''])]"

text \<open>The inner loop \<open>for keyword_pattern in keywords\<close>: true when it reaches \<open>return\<close>.\<close>

fun any_keyword_matches :: "string list \<Rightarrow> string \<Rightarrow> bool" where
  "any_keyword_matches [] lower_text = False"
| "any_keyword_matches (keyword_pattern # keywords) lower_text =
     (if re_search keyword_pattern lower_text then True
      else any_keyword_matches keywords lower_text)"

text \<open>The outer loop \<open>for category_name in categories\<close>.\<close>

fun categorize_loop :: "string list \<Rightarrow> string \<Rightarrow> string option" where
  "categorize_loop [] lower_text = None"
| "categorize_loop (category_name # categories) lower_text =
     (case map_of category_keywords category_name of
        None \<Rightarrow> categorize_loop categories lower_text
      | Some keywords \<Rightarrow>
          if any_keyword_matches keywords lower_text then Some category_name
          else categorize_loop categories lower_text)"

definition categorize_text :: "string \<Rightarrow> string list \<Rightarrow> string option" where
  "categorize_text text categories =
     (if text = [] \<or> py_strip text = [] then None
      else categorize_loop categories (py_lower text))"

text \<open>
  A category qualifies for a text when it has an entry in the keyword table and one of
  its patterns is found in the lowercased text.
\<close>

definition qualifies :: "string \<Rightarrow> string \<Rightarrow> bool" where
  "qualifies text c =
     (case map_of category_keywords c of
        None \<Rightarrow> False
      | Some kws \<Rightarrow> (\<exists>p \<in> set kws. re_search p (py_lower text)))"

section \<open>Exceptions\<close>

text \<open>
  An exception is an instance of a class below \<open>Exception\<close> together with the text that
  \<open>str(e)\<close> gives.  \<open>OSError\<close> stands for every \<open>OSError\<close> that is not a
  \<open>FileNotFoundError\<close> (\<open>PermissionError\<close>, \<open>FileExistsError\<close>, \<open>shutil.Error\<close>, ...),
  \<open>Exception\<close> for an instance of any other subclass of \<open>Exception\<close>, such as the
  errors of the document libraries.  Interrupts, which are not instances of
  \<open>Exception\<close>, are outside the model.
\<close>

datatype exc_class = TextExtractionError | FileNotFoundError | OSError | Exception

datatype py_exc = Exc exc_class string

fun str_exc :: "py_exc \<Rightarrow> string" where
  "str_exc (Exc k msg) = msg"

fun isinstance :: "py_exc \<Rightarrow> exc_class \<Rightarrow> bool" where
  "isinstance (Exc k msg) Exception = True"
| "isinstance (Exc k msg) OSError = (k = OSError \<or> k = FileNotFoundError)"
| "isinstance (Exc k msg) FileNotFoundError = (k = FileNotFoundError)"
| "isinstance (Exc k msg) TextExtractionError = (k = TextExtractionError)"

text \<open>
  The \<open>except\<close> clauses of one \<open>try\<close> statement, in order: the first clause whose class
  the exception is an instance of handles it; with no such clause it propagates.
\<close>

fun handle :: "(exc_class \<times> (py_exc \<Rightarrow> 'r)) list \<Rightarrow> (py_exc \<Rightarrow> 'r) \<Rightarrow> py_exc \<Rightarrow> 'r" where
  "handle [] propagate e = propagate e"
| "handle ((cls, h) # hs) propagate e =
     (if isinstance e cls then h e else handle hs propagate e)"

definition try_except :: "py_exc + 'a \<Rightarrow> (exc_class \<times> (py_exc \<Rightarrow> py_exc + 'a)) list \<Rightarrow> py_exc + 'a" where
  "try_except r hs = (case r of Inl e \<Rightarrow> handle hs Inl e | Inr v \<Rightarrow> Inr v)"

definition bind_exc :: "py_exc + 'a \<Rightarrow> ('a \<Rightarrow> py_exc + 'b) \<Rightarrow> py_exc + 'b" where
  "bind_exc r f = (case r of Inl e \<Rightarrow> Inl e | Inr v \<Rightarrow> f v)"

section \<open>Paths\<close>

text \<open>
  Paths are strings, as in the source.  \<open>os.path.basename\<close>, \<open>os.path.splitext\<close> and
  \<open>os.path.join\<close> are those of \<open>posixpath\<close>; \<open>path_parts\<close> is the \<open>parts\<close> tuple of a
  \<open>pathlib.PurePosixPath\<close> and \<open>path_str\<close> its \<open>str\<close>.
\<close>

type_synonym path = string

definition sep :: char where
  "sep = CHR ''/''"

definition basename :: "path \<Rightarrow> string" where
  "basename p = rev (takeWhile (\<lambda>c. c \<noteq> sep) (rev p))"

definition splitext :: "path \<Rightarrow> path \<times> string" where
  "splitext p =
     (let name = basename p;
          after_dot = rev (takeWhile (\<lambda>c. c \<noteq> CHR ''.'') (rev name));
          stem = take (length name - length after_dot - 1) name
      in if CHR ''.'' \<notin> set name \<or> list_all (\<lambda>c. c = CHR ''.'') stem then (p, [])
         else (take (length p - length after_dot - 1) p, CHR ''.'' # after_dot))"

definition path_join :: "path \<Rightarrow> path \<Rightarrow> path" where
  "path_join a b =
     (if b \<noteq> [] \<and> hd b = sep then b
      else if a = [] \<or> last a = sep then a @ b
      else a @ [sep] @ b)"

text \<open>\<open>s.split('/')\<close>\<close>

fun split_sep :: "string \<Rightarrow> string list" where
  "split_sep [] = [[]]"
| "split_sep (c # cs) =
     (if c = sep then [] # split_sep cs
      else (case split_sep cs of [] \<Rightarrow> [[c]] | x # xs \<Rightarrow> (c # x) # xs))"

text \<open>\<open>posixpath.splitroot\<close>: the root is \<open>/\<close>, or \<open>//\<close> for exactly two leading slashes.\<close>

fun splitroot :: "path \<Rightarrow> string \<times> string" where
  "splitroot [] = ([], [])"
| "splitroot (c # cs) =
     (if c \<noteq> sep then ([], c # cs)
      else (case cs of
              [] \<Rightarrow> ([sep], [])
            | d # ds \<Rightarrow>
                if d \<noteq> sep then ([sep], cs)
                else (case ds of
                        [] \<Rightarrow> ([sep, sep], [])
                      | e # es \<Rightarrow> if e = sep then ([sep], cs) else ([sep, sep], ds))))"

definition path_parts :: "path \<Rightarrow> string list" where
  "path_parts p =
     (let (root, rel) = splitroot p
      in (if root = [] then [] else [root]) @
         filter (\<lambda>x. x \<noteq> [] \<and> x \<noteq> ''.'') (split_sep rel))"



section \<open>Output\<close>

text \<open>
  Every \<open>print\<close> and every call of the logger is an event; an event names the call and
  holds the values its message interpolates.  A call of the logger does not raise: the
  \<open>logging\<close> module handles the exceptions of its handlers itself.  A \<open>print\<close> can raise.
\<close>

datatype level = INFO | WARNING | ERROR

datatype message =
    Processing path
  | Not_supported string string
  | Empty_text string
  | Extraction_failed string string
  | Not_found_in_extraction string
  | Unexpected_in_extraction string string
  | Moved string path string
  | Not_found_in_move string
  | OS_error_in_move string string string
  | Move_failed string string string
  | Not_categorized string

datatype event =
    Log level message
  | Print_legacy_doc path
  | Print_unsupported path string
  | Print_group_bug string path
  | Print_mkdir_error path string
  | Print_directory_created path
  | Print_move_error path path string

section \<open>Files and the file system\<close>

text \<open>
  A file is what the four document libraries make of it: for each library either the
  exception it raises on the file or the structure it reads.  \<open>docx_paragraphs\<close> is the
  text of \<open>Document(p).paragraphs\<close>; \<open>pdf_pages\<close> is \<open>page.extract_text()\<close> for the
  pages of \<open>PdfReader(p)\<close>; \<open>xlsx_sheets\<close> lists the sheets of \<open>load_workbook(p)\<close> by
  name, each a list of rows of cells, a cell being \<open>None\<close> or \<open>str(cell.value)\<close>;
  \<open>pptx_slides\<close> lists, for each slide of \<open>Presentation(p)\<close>, the text of its shapes,
  \<open>None\<close> for a shape without a \<open>text\<close> attribute.
\<close>

type_synonym cell = "string option"

type_synonym workbook = "(string \<times> cell list list) list"

record document =
  docx_paragraphs :: "py_exc + string list"
  pdf_pages :: "py_exc + string option list"
  xlsx_sheets :: "py_exc + workbook"
  pptx_slides :: "py_exc + string option list list"

text \<open>
  The operating system as the program meets it.  The file system maps the parts of a
  path to the file there and knows the directories; path strings with the same parts
  name the same entry, and \<open>..\<close> and symbolic links are not resolved.  \<open>refusal\<close> gives,
  for a place, the exception with which the operating system refuses to create or write
  an entry there (a \<open>PermissionError\<close>, or a \<open>ValueError\<close> for a name it cannot take).
  \<open>stdout_error\<close> gives the exception that \<open>print\<close> raises for an output, as when
  standard output cannot encode the text or is closed.  All paths are on one file
  system, so that a move is a rename.
\<close>

record filesystem =
  contents :: "string list \<rightharpoonup> document"
  dirs :: "string list set"
  refusal :: "string list \<Rightarrow> py_exc option"
  stdout_error :: "event \<Rightarrow> py_exc option"

definition isfile :: "filesystem \<Rightarrow> path \<Rightarrow> bool" where
  "isfile fs p = (contents fs (path_parts p) \<noteq> None)"

definition isdir :: "filesystem \<Rightarrow> path \<Rightarrow> bool" where
  "isdir fs p = (path_parts p \<in> dirs fs)"

text \<open>
  \<open>Path(p).mkdir(parents=True, exist_ok=True)\<close>: nothing happens when the directory
  exists.  Otherwise the missing directories on the way to it are created from the top;
  a file in the way raises an \<open>OSError\<close> and a refusal raises its exception, and the
  directories created before that stay.
\<close>

fun mkdir_loop :: "filesystem \<Rightarrow> string list list \<Rightarrow> (py_exc + unit) \<times> filesystem" where
  "mkdir_loop fs [] = (Inr (), fs)"
| "mkdir_loop fs (a # rest) =
     (if a \<in> dirs fs then mkdir_loop fs rest
      else if contents fs a \<noteq> None
        then (Inl (Exc OSError ''[Errno 17] File exists''), fs)
      else (case refusal fs a of
              Some e \<Rightarrow> (Inl e, fs)
            | None \<Rightarrow> mkdir_loop (fs\<lparr>dirs := insert a (dirs fs)\<rparr>) rest))"

definition mkdir_parents :: "filesystem \<Rightarrow> path \<Rightarrow> (py_exc + unit) \<times> filesystem" where
  "mkdir_parents fs p =
     (let k = path_parts p
      in if k \<in> dirs fs then (Inr (), fs) else mkdir_loop fs (prefixes k))"



text \<open>
  The state of a run: the operating system and the trace, to which every \<open>print\<close> that
  succeeds and every call of the logger appends its event.
\<close>

record world =
  fsys :: filesystem
  trace :: "event list"

definition emit :: "event \<Rightarrow> world \<Rightarrow> world" where
  "emit ev w = w\<lparr>trace := trace w @ [ev]\<rparr>"

text \<open>\<open>print\<close>: the exception of standard output, or the event appended to the trace.\<close>

definition py_print :: "world \<Rightarrow> event \<Rightarrow> (py_exc + unit) \<times> world" where
  "py_print w ev =
     (case stdout_error (fsys w) ev of
        Some e \<Rightarrow> (Inl e, w)
      | None \<Rightarrow> (Inr (), emit ev w))"

section \<open>text_extractor.py\<close>

definition DOC_EXTENSIONS :: "string list" where
  "DOC_EXTENSIONS = [''.doc'', ''.docx'']"

definition PDF_EXTENSIONS :: "string list" where
  "PDF_EXTENSIONS = [''.pdf'']"

definition EXCEL_EXTENSIONS :: "string list" where
  "EXCEL_EXTENSIONS = [''.xls'', ''.xlsx'']"

definition POWERPOINT_EXTENSIONS :: "string list" where
  "POWERPOINT_EXTENSIONS = [''.ppt'', ''.pptx'']"

definition ALL_SUPPORTED_EXTENSIONS :: "string list" where
  "ALL_SUPPORTED_EXTENSIONS =
     DOC_EXTENSIONS @ PDF_EXTENSIONS @ EXCEL_EXTENSIONS @ POWERPOINT_EXTENSIONS"

definition newline :: string where
  "newline = [CHR 0x0A]"

definition quoted :: "string \<Rightarrow> string" where
  "quoted s = [CHR 0x27] @ s @ [CHR 0x27]"

text \<open>A library opening the file at a path.\<close>

definition open_file :: "filesystem \<Rightarrow> path \<Rightarrow> py_exc + document" where
  "open_file fs p =
     (case contents fs (path_parts p) of
        None \<Rightarrow> Inl (Exc FileNotFoundError (''[Errno 2] No such file or directory: '' @ quoted p))
      | Some d \<Rightarrow> Inr d)"

text \<open>\<open>for para in doc.paragraphs: full_text.append(para.text)\<close>\<close>

fun paragraphs_loop :: "string list \<Rightarrow> string list \<Rightarrow> string list" where
  "paragraphs_loop [] full_text = full_text"
| "paragraphs_loop (para # paras) full_text = paragraphs_loop paras (full_text @ [para])"

definition extract_text_from_docx :: "filesystem \<Rightarrow> path \<Rightarrow> py_exc + string" where
  "extract_text_from_docx fs file_path =
     try_except
       (bind_exc (open_file fs file_path) (\<lambda>doc.
        bind_exc (docx_paragraphs doc) (\<lambda>paragraphs.
        Inr (py_join newline (paragraphs_loop paragraphs [])))))
       [(Exception, \<lambda>e. Inl (Exc TextExtractionError
          (''Failed to extract text from DOCX '' @ quoted file_path @ '': '' @ str_exc e)))]"

text \<open>\<open>for page in reader.pages: full_text.append(page.extract_text() or "")\<close>\<close>

fun pages_loop :: "string option list \<Rightarrow> string list \<Rightarrow> string list" where
  "pages_loop [] full_text = full_text"
| "pages_loop (page # pages) full_text =
     pages_loop pages (full_text @ [case page of None \<Rightarrow> [] | Some t \<Rightarrow> if t = [] then [] else t])"

definition extract_text_from_pdf :: "filesystem \<Rightarrow> path \<Rightarrow> py_exc + string" where
  "extract_text_from_pdf fs file_path =
     try_except
       (bind_exc (open_file fs file_path) (\<lambda>reader.
        bind_exc (pdf_pages reader) (\<lambda>pages.
        Inr (py_join newline (pages_loop pages [])))))
       [(Exception, \<lambda>e. Inl (Exc TextExtractionError
          (''Failed to extract text from PDF '' @ quoted file_path @ '': '' @ str_exc e)))]"

text \<open>The three nested loops over sheet names, rows and cells.\<close>

fun cells_loop :: "cell list \<Rightarrow> string list \<Rightarrow> string list" where
  "cells_loop [] full_text = full_text"
| "cells_loop (cell # row) full_text =
     cells_loop row (case cell of None \<Rightarrow> full_text | Some v \<Rightarrow> full_text @ [v])"

fun rows_loop :: "cell list list \<Rightarrow> string list \<Rightarrow> string list" where
  "rows_loop [] full_text = full_text"
| "rows_loop (row # rows) full_text = rows_loop rows (cells_loop row full_text)"

text \<open>\<open>workbook[sheet_name]\<close> is the first sheet of that name and raises \<open>KeyError\<close> without one.\<close>

fun sheets_loop :: "workbook \<Rightarrow> string list \<Rightarrow> string list \<Rightarrow> py_exc + string list" where
  "sheets_loop workbook [] full_text = Inr full_text"
| "sheets_loop workbook (sheet_name # sheetnames) full_text =
     (case map_of workbook sheet_name of
        None \<Rightarrow> Inl (Exc Exception (''Worksheet '' @ sheet_name @ '' does not exist.''))
      | Some sheet \<Rightarrow> sheets_loop workbook sheetnames (rows_loop sheet full_text))"

definition extract_text_from_excel :: "filesystem \<Rightarrow> path \<Rightarrow> py_exc + string" where
  "extract_text_from_excel fs file_path =
     try_except
       (bind_exc (open_file fs file_path) (\<lambda>file.
        bind_exc (xlsx_sheets file) (\<lambda>workbook.
        bind_exc (sheets_loop workbook (map fst workbook) []) (\<lambda>full_text.
        Inr (py_join newline full_text)))))
       [(Exception, \<lambda>e. Inl (Exc TextExtractionError
          (''Failed to extract text from Excel '' @ quoted file_path @ '': '' @ str_exc e)))]"

text \<open>The loops over slides and shapes; \<open>hasattr(shape, "text")\<close> is \<open>shape \<noteq> None\<close>.\<close>

fun shapes_loop :: "string option list \<Rightarrow> string list \<Rightarrow> string list" where
  "shapes_loop [] full_text = full_text"
| "shapes_loop (shape # shapes) full_text =
     shapes_loop shapes (case shape of None \<Rightarrow> full_text | Some t \<Rightarrow> full_text @ [t])"

fun slides_loop :: "string option list list \<Rightarrow> string list \<Rightarrow> string list" where
  "slides_loop [] full_text = full_text"
| "slides_loop (slide # slides) full_text = slides_loop slides (shapes_loop slide full_text)"

definition extract_text_from_pptx :: "filesystem \<Rightarrow> path \<Rightarrow> py_exc + string" where
  "extract_text_from_pptx fs file_path =
     try_except
       (bind_exc (open_file fs file_path) (\<lambda>file.
        bind_exc (pptx_slides file) (\<lambda>slides.
        Inr (py_join newline (slides_loop slides [])))))
       [(Exception, \<lambda>e. Inl (Exc TextExtractionError
          (''Failed to extract text from PowerPoint '' @ quoted file_path @ '': '' @ str_exc e)))]"

text \<open>
  The body of the \<open>try\<close> statement of \<open>extract_text\<close>: the dispatch on the lowercased
  extension.  The result is \<open>None\<close> or the text, with what was printed; a \<open>print\<close> that
  raises ends the body with its exception.
\<close>

definition returning :: "py_exc + string \<Rightarrow> py_exc + string option" where
  "returning r = bind_exc r (\<lambda>t. Inr (Some t))"

text \<open>\<open>print(...)\<close> followed by \<open>return None\<close>.\<close>

definition print_return_None :: "filesystem \<Rightarrow> event \<Rightarrow> (py_exc + string option) \<times> event list" where
  "print_return_None fs ev =
     (case stdout_error fs ev of
        Some e \<Rightarrow> (Inl e, [])
      | None \<Rightarrow> (Inr None, [ev]))"

definition dispatch :: "filesystem \<Rightarrow> path \<Rightarrow> string \<Rightarrow> (py_exc + string option) \<times> event list" where
  "dispatch fs file_path file_extension =
     (if file_extension \<in> set DOC_EXTENSIONS then
        (if file_extension = ''.doc'' then print_return_None fs (Print_legacy_doc file_path)
         else (returning (extract_text_from_docx fs file_path), []))
      else if file_extension \<in> set PDF_EXTENSIONS then
        (returning (extract_text_from_pdf fs file_path), [])
      else if file_extension \<in> set EXCEL_EXTENSIONS then
        (returning (extract_text_from_excel fs file_path), [])
      else if file_extension \<in> set POWERPOINT_EXTENSIONS then
        (returning (extract_text_from_pptx fs file_path), [])
      else if file_extension \<notin> set ALL_SUPPORTED_EXTENSIONS then
        print_return_None fs (Print_unsupported file_path file_extension)
      else print_return_None fs (Print_group_bug file_extension file_path))"

definition extract_text :: "filesystem \<Rightarrow> path \<Rightarrow> (py_exc + string option) \<times> event list" where
  "extract_text fs file_path =
     (if \<not> isfile fs file_path
      then (Inl (Exc FileNotFoundError (''File not found: '' @ quoted file_path)), [])
      else
        (let file_extension = py_lower (snd (splitext file_path));
             (r, printed) = dispatch fs file_path file_extension
         in (try_except r
               [(TextExtractionError, Inl),
                (Exception, \<lambda>e. Inl (Exc TextExtractionError
                   (''An unexpected error occurred while processing '' @ quoted file_path
                      @ '': '' @ str_exc e)))],
             printed)))"

section \<open>file_utils.py\<close>


text \<open>
  The block \<open>if not os.path.isdir(target_dir_path): ...\<close> of \<open>move_file_to_directory\<close>:
  the \<open>try\<close> holds the \<open>mkdir\<close> and the \<open>print\<close>, the handler is for \<open>OSError\<close>.
\<close>

definition ensure_target_dir :: "world \<Rightarrow> path \<Rightarrow> (py_exc + unit) \<times> world" where
  "ensure_target_dir w target_dir_path =
     (if \<not> isdir (fsys w) target_dir_path then
        (let (r, w1) =
               (case mkdir_parents (fsys w) target_dir_path of
                  (Inl e, fs') \<Rightarrow> (Inl e, w\<lparr>fsys := fs'\<rparr>)
                | (Inr u, fs') \<Rightarrow>
                    py_print (w\<lparr>fsys := fs'\<rparr>) (Print_directory_created target_dir_path))
         in case r of
              Inl e \<Rightarrow>
                handle
                  [(OSError, \<lambda>e. (Inl (Exc OSError
                      (''Target directory '' @ quoted target_dir_path
                         @ '' does not exist and could not be created: '' @ str_exc e)), w1))]
                  (\<lambda>e. (Inl e, w1)) e
            | Inr u \<Rightarrow> (Inr (), w1))
      else (Inr (), w))"


section \<open>main_sorter.py\<close>





section \<open>Notions used in the statements\<close>

text \<open>The number of newline-separated lines of a text, \<open>len(s.split('\n'))\<close>.\<close>

definition line_count :: "string \<Rightarrow> nat" where
  "line_count s = Suc (count_list s (CHR 0x0A))"

text \<open>What a page contributes: its text, or the empty string when it has none.\<close>

definition page_text :: "string option \<Rightarrow> string" where
  "page_text page = (case page of None \<Rightarrow> [] | Some t \<Rightarrow> t)"

text \<open>
  The values of the non-empty cells of a workbook, sheet by sheet, row by row, cell by
  cell.
\<close>

definition row_values :: "cell list \<Rightarrow> string list" where
  "row_values row = concat (map (\<lambda>cell. case cell of None \<Rightarrow> [] | Some v \<Rightarrow> [v]) row)"

definition sheet_values :: "cell list list \<Rightarrow> string list" where
  "sheet_values rows = concat (map row_values rows)"

definition cell_values :: "workbook \<Rightarrow> string list" where
  "cell_values workbook = concat (map (\<lambda>(name, rows). sheet_values rows) workbook)"

text \<open>
  The sheet that \<open>workbook[name]\<close> gives: the first one of that name.  The values that
  the loop over the sheet names visits are, for every sheet name in workbook order, the
  values of the first sheet of that name.
\<close>

definition first_sheet_named :: "workbook \<Rightarrow> string \<Rightarrow> cell list list" where
  "first_sheet_named workbook name = (case map_of workbook name of None \<Rightarrow> [] | Some rows \<Rightarrow> rows)"

definition visited_values :: "workbook \<Rightarrow> string list" where
  "visited_values workbook =
     concat (map (\<lambda>name. sheet_values (first_sheet_named workbook name)) (map fst workbook))"

text \<open>
  The exception, if any, that the library responsible for an extension raises on a
  file.
\<close>

definition parser_error :: "document \<Rightarrow> string \<Rightarrow> py_exc option" where
  "parser_error d ext =
     (if ext = ''.docx'' then (case docx_paragraphs d of Inl e \<Rightarrow> Some e | Inr v \<Rightarrow> None)
      else if ext \<in> set PDF_EXTENSIONS then (case pdf_pages d of Inl e \<Rightarrow> Some e | Inr v \<Rightarrow> None)
      else if ext \<in> set EXCEL_EXTENSIONS then (case xlsx_sheets d of Inl e \<Rightarrow> Some e | Inr v \<Rightarrow> None)
      else if ext \<in> set POWERPOINT_EXTENSIONS
        then (case pptx_slides d of Inl e \<Rightarrow> Some e | Inr v \<Rightarrow> None)
      else None)"

text \<open>A name that is one component of a path.\<close>

definition proper_name :: "string \<Rightarrow> bool" where
  "proper_name b = (b \<noteq> [] \<and> sep \<notin> set b \<and> b \<noteq> ''.'')"


text \<open>The place \<open>target_dir/category/name\<close> of a file \<open>file_path\<close> with that name.\<close>

definition dest_key :: "path \<Rightarrow> string \<Rightarrow> path \<Rightarrow> string list" where
  "dest_key target_dir category file_path =
     path_parts target_dir @ [category, basename file_path]"



text \<open>The files that a trace reports as taken up by the loop, in order.\<close>

fun attempted :: "event list \<Rightarrow> path list" where
  "attempted [] = []"
| "attempted (Log lv (Processing p) # evs) = p # attempted evs"
| "attempted (ev # evs) = attempted evs"

text \<open>The relocations that a trace reports: category and directory.\<close>

fun relocations :: "event list \<Rightarrow> (string \<times> path) list" where
  "relocations [] = []"
| "relocations (Log lv (Moved name dir category) # evs) = (category, dir) # relocations evs"
| "relocations (ev # evs) = relocations evs"


section \<open>Example files\<close>

definition not_this_format :: py_exc where
  "not_this_format = Exc Exception ''File is not a zip file''"

definition docx_file :: "string list \<Rightarrow> document" where
  "docx_file paragraphs =
     \<lparr>docx_paragraphs = Inr paragraphs, pdf_pages = Inl not_this_format,
      xlsx_sheets = Inl not_this_format, pptx_slides = Inl not_this_format\<rparr>"

definition pdf_file :: "string option list \<Rightarrow> document" where
  "pdf_file pages =
     \<lparr>docx_paragraphs = Inl not_this_format, pdf_pages = Inr pages,
      xlsx_sheets = Inl not_this_format, pptx_slides = Inl not_this_format\<rparr>"

definition xlsx_file :: "workbook \<Rightarrow> document" where
  "xlsx_file workbook =
     \<lparr>docx_paragraphs = Inl not_this_format, pdf_pages = Inl not_this_format,
      xlsx_sheets = Inr workbook, pptx_slides = Inl not_this_format\<rparr>"

definition corrupt_file :: document where
  "corrupt_file =
     \<lparr>docx_paragraphs = Inl not_this_format, pdf_pages = Inl not_this_format,
      xlsx_sheets = Inl not_this_format, pptx_slides = Inl not_this_format\<rparr>"

text \<open>
  A standard output that takes ASCII text only: a \<open>print\<close> of anything else raises
  (a \<open>UnicodeEncodeError\<close>).
\<close>

fun printed_values :: "event \<Rightarrow> string list" where
  "printed_values (Log lv m) = []"
| "printed_values (Print_legacy_doc p) = [p]"
| "printed_values (Print_unsupported p ext) = [p, ext]"
| "printed_values (Print_group_bug ext p) = [ext, p]"
| "printed_values (Print_mkdir_error p m) = [p, m]"
| "printed_values (Print_directory_created p) = [p]"
| "printed_values (Print_move_error src dst m) = [src, dst, m]"

definition ascii_stdout :: "event \<Rightarrow> py_exc option" where
  "ascii_stdout ev =
     (if list_all (list_all is_ascii) (printed_values ev) then None
      else Some (Exc Exception ''ordinal not in range(128)''))"

definition permission_denied :: py_exc where
  "permission_denied = Exc OSError ''[Errno 13] Permission denied''"

text \<open>
  A source directory \<open>/src\<close> with two documents that can be sorted, a corrupt PDF, two
  legacy \<open>.doc\<close> files (one with a name that is not ASCII), three spreadsheets, two PDFs
  and two reports of the same name in different directories.  \<open>/out\<close> does not exist;
  nothing can be created in \<open>/locked\<close>; in \<open>/busy/Reports\<close> there is a directory
  \<open>weekly.docx\<close>.  Standard output takes ASCII only.
\<close>

definition example_fs :: filesystem where
  "example_fs =
     \<lparr>contents =
        [[''/'', ''src'', ''thesis.docx''] \<mapsto> docx_file [''This is my master's thesis on AI.''],
         [''/'', ''src'', ''weekly.docx''] \<mapsto> docx_file [''Weekly project'', ''REPORT''],
         [''/'', ''src'', ''broken.pdf''] \<mapsto> corrupt_file,
         [''/'', ''src'', ''old.DOC''] \<mapsto> corrupt_file,
         [''/'', ''src'', ''caf'' @ [CHR 0xE9] @ ''.doc''] \<mapsto> corrupt_file,
         [''/'', ''src'', ''notes.txt''] \<mapsto> corrupt_file,
         [''/'', ''src'', ''marks.xlsx''] \<mapsto>
            xlsx_file [(''Sheet1'', [[Some ''name'', None, Some ''mark''], [], [Some ''Ann'', Some ''5'']]),
                       (''Sheet2'', [[None, Some ''total'']])],
         [''/'', ''src'', ''twins.xlsx''] \<mapsto>
            xlsx_file [(''S'', [[Some ''a'']]), (''S'', [[Some ''b'']])],
         [''/'', ''src'', ''address.xlsx''] \<mapsto>
            xlsx_file [(''Sheet1'', [[Some (''1 Main St'' @ [CHR 0x0A] @ ''Springfield'')]])],
         [''/'', ''src'', ''two_lines.pdf''] \<mapsto>
            pdf_file [Some (''first line'' @ [CHR 0x0A] @ ''second line'')],
         [''/'', ''src'', ''pages.pdf''] \<mapsto> pdf_file [Some ''one'', None, Some ''three''],
         [''/'', ''src'', ''a'', ''report.docx''] \<mapsto> docx_file [''Report of team A''],
         [''/'', ''src'', ''b'', ''report.docx''] \<mapsto> docx_file [''Report of team B'']],
      dirs = {[''/''], [''/'', ''src''], [''/'', ''src'', ''a''], [''/'', ''src'', ''b''],
              [''/'', ''locked''],
              [''/'', ''busy''], [''/'', ''busy'', ''Reports''],
              [''/'', ''busy'', ''Reports'', ''weekly.docx'']},
      refusal = (\<lambda>k. if take 2 k = [''/'', ''locked''] \<and> length k > 2
                     then Some permission_denied else None),
      stdout_error = ascii_stdout\<rparr>"



section \<open>Strings and the categorizer\<close>

lemma starts_with_iff: "starts_with s p \<longleftrightarrow> (\<exists>suf. s = p @ suf)"
  by (induction s p rule: starts_with.induct) auto

lemma re_search_iff: "re_search p s \<longleftrightarrow> (\<exists>pre suf. s = pre @ p @ suf)"
proof (induction s)
  case Nil
  then show ?case by auto
next
  case (Cons c cs)
  show ?case
  proof
    assume "re_search p (c # cs)"
    then consider "starts_with (c # cs) p" | "re_search p cs" by auto
    then show "\<exists>pre suf. c # cs = pre @ p @ suf"
    proof cases
      case 1
      then obtain suf where "c # cs = p @ suf" by (auto simp: starts_with_iff)
      then have "c # cs = [] @ p @ suf" by simp
      then show ?thesis by blast
    next
      case 2
      then obtain pre suf where "cs = pre @ p @ suf" using Cons.IH by blast
      then have "c # cs = (c # pre) @ p @ suf" by simp
      then show ?thesis by blast
    qed
  next
    assume "\<exists>pre suf. c # cs = pre @ p @ suf"
    then obtain pre suf where eq: "c # cs = pre @ p @ suf" by blast
    show "re_search p (c # cs)"
    proof (cases pre)
      case Nil
      then have "starts_with (c # cs) p" using eq by (auto simp: starts_with_iff)
      then show ?thesis by simp
    next
      case (Cons a pre')
      then have "cs = pre' @ p @ suf" using eq by simp
      then have "re_search p cs" using Cons.IH by blast
      then show ?thesis by simp
    qed
  qed
qed

lemma re_search_subset: "re_search p s \<Longrightarrow> set p \<subseteq> set s"
  by (auto simp: re_search_iff)

lemma any_keyword_matches_iff:
  "any_keyword_matches kws t \<longleftrightarrow> (\<exists>p \<in> set kws. re_search p t)"
  by (induction kws) auto

lemma categorize_loop_find:
  "categorize_loop cs (py_lower text) = List.find (qualifies text) cs"
  by (induction cs) (auto simp: qualifies_def any_keyword_matches_iff split: option.splits)

lemma all_dropWhile: "(\<forall>c \<in> set (dropWhile P s). P c) \<longleftrightarrow> (\<forall>c \<in> set s. P c)"
  by (induction s) auto

lemma py_strip_empty_iff: "py_strip s = [] \<longleftrightarrow> (\<forall>c \<in> set s. py_isspace c)"
  by (simp add: py_strip_def all_dropWhile)

lemma blank_iff: "(text = [] \<or> py_strip text = []) \<longleftrightarrow> (\<forall>c \<in> set text. py_isspace c)"
  by (auto simp: py_strip_empty_iff)

lemma py_lower_char_space: "py_isspace (py_lower_char c) \<longleftrightarrow> py_isspace c"
proof -
  have "(of_char c :: nat) < 256" by simp
  then show ?thesis
    by (auto simp: py_isspace_def py_lower_char_def Let_def)
qed

lemma py_lower_char_idem: "py_lower_char (py_lower_char c) = py_lower_char c"
proof -
  have "(of_char c :: nat) < 256" by simp
  then show ?thesis
    by (auto simp: py_lower_char_def Let_def)
qed

lemma py_lower_idem: "py_lower (py_lower s) = py_lower s"
  by (simp add: py_lower_def py_lower_char_idem)

lemma py_lower_blank: "(\<forall>c \<in> set (py_lower s). py_isspace c) \<longleftrightarrow> (\<forall>c \<in> set s. py_isspace c)"
  by (simp add: py_lower_def py_lower_char_space)

lemma categorize_text_find:
  "categorize_text text cs =
     (if \<forall>c \<in> set text. py_isspace c then None else List.find (qualifies text) cs)"
  unfolding categorize_text_def blank_iff by (simp add: categorize_loop_find)

lemma py_upper_ascii:
  "\<forall>c \<in> set s. is_ascii c \<Longrightarrow> \<exists>u. py_upper s = Some u \<and> py_lower u = py_lower s"
proof (induction s)
  case Nil
  then show ?case by (simp add: py_lower_def)
next
  case (Cons c s)
  then obtain u where u: "py_upper s = Some u" "py_lower u = py_lower s" by auto
  have "is_ascii c" using Cons.prems by simp
  then have "\<exists>d. py_upper_char c = Some [d] \<and> py_lower_char d = py_lower_char c"
    by (auto simp: is_ascii_def py_upper_char_def py_lower_char_def Let_def)
  then show ?case using u by (auto simp: py_lower_def)
qed


lemma keyword_first_char:
  "\<forall>(c, kws) \<in> set category_keywords. \<forall>p \<in> set kws. p \<noteq> [] \<and> \<not> py_isspace (hd p)"
  by (simp add: category_keywords_def py_isspace_def)

lemma keywords_literal:
  "\<forall>(c, kws) \<in> set category_keywords. \<forall>p \<in> set kws. literal_pattern p"
  by (simp add: category_keywords_def literal_pattern_def literal_char_def)

lemma blank_not_qualifies:
  assumes "\<forall>c \<in> set text. py_isspace c"
  shows "\<not> qualifies text c"
proof
  assume "qualifies text c"
  then obtain kws p where kws: "map_of category_keywords c = Some kws"
    and p: "p \<in> set kws" "re_search p (py_lower text)"
    by (auto simp: qualifies_def split: option.splits)
  from kws have "(c, kws) \<in> set category_keywords" by (rule map_of_SomeD)
  with p(1) keyword_first_char have "p \<noteq> []" "\<not> py_isspace (hd p)" by auto
  moreover have "set p \<subseteq> set (py_lower text)" using p(2) by (rule re_search_subset)
  ultimately have "hd p \<in> set (py_lower text)" by auto
  then have "py_isspace (hd p)" using assms py_lower_blank by blast
  with \<open>\<not> py_isspace (hd p)\<close> show False by simp
qed

lemma categorize_text_eq_find: "categorize_text text cs = List.find (qualifies text) cs"
proof (cases "\<forall>c \<in> set text. py_isspace c")
  case True
  then have "List.find (qualifies text) cs = None"
    by (simp add: find_None_iff blank_not_qualifies)
  then show ?thesis using True by (simp add: categorize_text_find)
next
  case False
  then show ?thesis unfolding categorize_text_find by auto
qed

lemma find_Some_split:
  "List.find P xs = Some x \<longleftrightarrow>
     (\<exists>before after. xs = before @ x # after \<and> P x \<and> (\<forall>b \<in> set before. \<not> P b))"
proof (induction xs)
  case Nil
  then show ?case by simp
next
  case (Cons a xs)
  show ?case
  proof (cases "P a")
    case True
    have "(\<exists>before after. a # xs = before @ x # after \<and> P x \<and> (\<forall>b \<in> set before. \<not> P b))
          \<longleftrightarrow> a = x"
    proof
      assume "\<exists>before after. a # xs = before @ x # after \<and> P x \<and> (\<forall>b \<in> set before. \<not> P b)"
      then obtain before after where h: "a # xs = before @ x # after" "\<forall>b \<in> set before. \<not> P b"
        by blast
      show "a = x"
      proof (cases before)
        case Nil
        then show ?thesis using h by simp
      next
        case (Cons b bs)
        then have "b = a" "b \<in> set before" using h by auto
        then show ?thesis using h(2) True by blast
      qed
    next
      assume "a = x"
      then have "a # xs = [] @ x # xs \<and> P x \<and> (\<forall>b \<in> set []. \<not> P b)" using True by simp
      then show "\<exists>before after. a # xs = before @ x # after \<and> P x \<and> (\<forall>b \<in> set before. \<not> P b)"
        by blast
    qed
    then show ?thesis using True by simp
  next
    case False
    have "(\<exists>before after. a # xs = before @ x # after \<and> P x \<and> (\<forall>b \<in> set before. \<not> P b))
          \<longleftrightarrow> (\<exists>before after. xs = before @ x # after \<and> P x \<and> (\<forall>b \<in> set before. \<not> P b))"
    proof
      assume "\<exists>before after. a # xs = before @ x # after \<and> P x \<and> (\<forall>b \<in> set before. \<not> P b)"
      then obtain before after where h: "a # xs = before @ x # after" "P x" "\<forall>b \<in> set before. \<not> P b"
        by blast
      then obtain bs where "before = a # bs" using False by (cases before) auto
      then have "xs = bs @ x # after \<and> P x \<and> (\<forall>b \<in> set bs. \<not> P b)" using h by simp
      then show "\<exists>before after. xs = before @ x # after \<and> P x \<and> (\<forall>b \<in> set before. \<not> P b)"
        by blast
    next
      assume "\<exists>before after. xs = before @ x # after \<and> P x \<and> (\<forall>b \<in> set before. \<not> P b)"
      then obtain before after where h: "xs = before @ x # after" "P x" "\<forall>b \<in> set before. \<not> P b"
        by blast
      then have "a # xs = (a # before) @ x # after \<and> P x \<and> (\<forall>b \<in> set (a # before). \<not> P b)"
        using False by simp
      then show "\<exists>before after. a # xs = before @ x # after \<and> P x \<and> (\<forall>b \<in> set before. \<not> P b)"
        by blast
    qed
    then show ?thesis using False Cons.IH by simp
  qed
qed

lemma find_cong_set: "(\<And>x. x \<in> set xs \<Longrightarrow> P x = Q x) \<Longrightarrow> List.find P xs = List.find Q xs"
  by (induction xs) auto

lemma qualifies_occurs:
  "qualifies text c \<longleftrightarrow>
     (\<exists>kws. map_of category_keywords c = Some kws \<and>
        (\<exists>p \<in> set kws. \<exists>pre suf. py_lower text = pre @ p @ suf))"
  by (auto simp: qualifies_def re_search_iff split: option.splits)

text \<open>
  Claim C1.  \<open>categorize_text\<close> returns the first category of the caller's list, in
  the caller's order, that qualifies: it has an entry in the keyword table and one of
  its patterns occurs somewhere in the lowercased text.  Names without an entry are
  never returned, and without a qualifying category the result is \<open>None\<close>.  When the
  qualifying categories of the list are two categories \<open>a\<close> and \<open>b\<close>, the result is
  whichever of the two comes first in the list, whatever the order of the list.
\<close>

theorem categorize_text_first_match:
  "(categorize_text text categories = Some c \<longleftrightarrow>
      (\<exists>before after. categories = before @ c # after \<and> qualifies text c \<and>
          (\<forall>b \<in> set before. \<not> qualifies text b)))
   \<and> (categorize_text text categories = None \<longleftrightarrow> (\<forall>b \<in> set categories. \<not> qualifies text b))
   \<and> (qualifies text c \<longleftrightarrow>
        (\<exists>kws. map_of category_keywords c = Some kws \<and>
           (\<exists>p \<in> set kws. \<exists>pre suf. py_lower text = pre @ p @ suf)))
   \<and> (map_of category_keywords c = None \<longrightarrow> categorize_text text categories \<noteq> Some c)
   \<and> ((\<forall>x \<in> set categories. qualifies text x \<longleftrightarrow> x = a \<or> x = b) \<longrightarrow>
        categorize_text text categories = List.find (\<lambda>x. x = a \<or> x = b) categories)"
proof (intro conjI)
  show "categorize_text text categories = Some c \<longleftrightarrow>
      (\<exists>before after. categories = before @ c # after \<and> qualifies text c \<and>
          (\<forall>b \<in> set before. \<not> qualifies text b))"
    by (simp only: categorize_text_eq_find find_Some_split)
  show "categorize_text text categories = None \<longleftrightarrow> (\<forall>b \<in> set categories. \<not> qualifies text b)"
    by (auto simp: categorize_text_eq_find find_None_iff)
  show "qualifies text c \<longleftrightarrow>
        (\<exists>kws. map_of category_keywords c = Some kws \<and>
           (\<exists>p \<in> set kws. \<exists>pre suf. py_lower text = pre @ p @ suf))"
    by (rule qualifies_occurs)
  show "map_of category_keywords c = None \<longrightarrow> categorize_text text categories \<noteq> Some c"
    by (auto simp: categorize_text_eq_find find_Some_split qualifies_def)
  show "(\<forall>x \<in> set categories. qualifies text x \<longleftrightarrow> x = a \<or> x = b) \<longrightarrow>
        categorize_text text categories = List.find (\<lambda>x. x = a \<or> x = b) categories"
    unfolding categorize_text_eq_find by (auto intro: find_cong_set)
qed

theorem categorize_text_first_match_witness:
  "qualifies ''Solutions manual for the TEST'' ''Tests & Quizzes''
   \<and> qualifies ''Solutions manual for the TEST'' ''Books & Textbooks''
   \<and> \<not> qualifies ''Solutions manual for the TEST'' ''Homework''
   \<and> categorize_text ''Solutions manual for the TEST''
         [''Homework'', ''Books & Textbooks'', ''Tests & Quizzes''] = Some ''Books & Textbooks''
   \<and> map_of category_keywords ''Homework'' = None
   \<and> categorize_text ''Solutions manual for the TEST''
         [''Homework'', ''Books & Textbooks'', ''Tests & Quizzes''] \<noteq> Some ''Homework''"
proof -
  let ?t = "''Solutions manual for the TEST''"
  let ?cs = "[''Homework'', ''Books & Textbooks'', ''Tests & Quizzes'']"
  have q: "\<forall>x \<in> set ?cs. qualifies ?t x \<longleftrightarrow> x = ''Tests & Quizzes'' \<or> x = ''Books & Textbooks''"
    by code_simp
  have n: "map_of category_keywords ''Homework'' = None"
    by code_simp
  note inst = categorize_text_first_match
    [of ?t ?cs "''Homework''" "''Tests & Quizzes''" "''Books & Textbooks''"]
  from inst q have "categorize_text ?t ?cs
      = List.find (\<lambda>x. x = ''Tests & Quizzes'' \<or> x = ''Books & Textbooks'') ?cs"
    by blast
  then have r: "categorize_text ?t ?cs = Some ''Books & Textbooks''" by simp
  from inst n have "categorize_text ?t ?cs \<noteq> Some ''Homework''" by blast
  moreover have "qualifies ?t ''Tests & Quizzes''" "qualifies ?t ''Books & Textbooks''"
    "\<not> qualifies ?t ''Homework''"
    using q by simp_all
  ultimately show ?thesis using r n by blast
qed

text \<open>
  Claim C4.  For every list of categories, \<open>categorize_text\<close> returns \<open>None\<close> on a text
  that is empty or consists only of whitespace characters.
\<close>

theorem categorize_text_blank:
  "(\<forall>c \<in> set text. py_isspace c) \<Longrightarrow> categorize_text text categories = None"
  by (simp add: categorize_text_find)

theorem categorize_text_blank_witness:
  "py_isspace (CHR '' '') \<and> py_isspace (CHR 0x09) \<and> py_isspace (CHR 0x0A)
   \<and> categorize_text [] PREDEFINED_CATEGORIES = None
   \<and> categorize_text [CHR '' '', CHR 0x09, CHR 0x0A] PREDEFINED_CATEGORIES = None"
proof -
  have sp: "py_isspace (CHR '' '')" "py_isspace (CHR 0x09)" "py_isspace (CHR 0x0A)"
    by (simp_all add: py_isspace_def)
  have "categorize_text [] PREDEFINED_CATEGORIES = None"
    using categorize_text_blank [of "[]" PREDEFINED_CATEGORIES] by simp
  moreover have "categorize_text [CHR '' '', CHR 0x09, CHR 0x0A] PREDEFINED_CATEGORIES = None"
    using categorize_text_blank [of "[CHR '' '', CHR 0x09, CHR 0x0A]" PREDEFINED_CATEGORIES] sp
    by simp
  ultimately show ?thesis using sp by simp
qed

lemma qualifies_lower_cong: "py_lower t' = py_lower t \<Longrightarrow> qualifies t' = qualifies t"
  by (rule ext) (simp add: qualifies_def split: option.splits)

lemma same_lower_same_category:
  assumes "py_lower t' = py_lower t"
  shows "categorize_text t' cs = categorize_text t cs"
proof -
  have "qualifies t' = qualifies t" using assms by (rule qualifies_lower_cong)
  then show ?thesis by (simp only: categorize_text_eq_find)
qed

text \<open>
  Claim C9, as amended.  \<open>categorize_text\<close> returns the same result on two texts with
  the same lowercased form, in particular on a text and on its lowercased form, and on
  the uppercased form of a text made of ASCII characters.
\<close>

theorem categorize_text_case_insensitive:
  "(py_lower t' = py_lower t \<longrightarrow> categorize_text t' cs = categorize_text t cs)
   \<and> categorize_text (py_lower t) cs = categorize_text t cs
   \<and> ((\<forall>c \<in> set t. is_ascii c) \<longrightarrow>
        (\<exists>u. py_upper t = Some u \<and> categorize_text u cs = categorize_text t cs))"
proof (intro conjI impI)
  assume "py_lower t' = py_lower t"
  then show "categorize_text t' cs = categorize_text t cs" by (rule same_lower_same_category)
next
  show "categorize_text (py_lower t) cs = categorize_text t cs"
    by (rule same_lower_same_category) (rule py_lower_idem)
next
  assume "\<forall>c \<in> set t. is_ascii c"
  then obtain u where "py_upper t = Some u" "py_lower u = py_lower t"
    using py_upper_ascii by blast
  then show "\<exists>u. py_upper t = Some u \<and> categorize_text u cs = categorize_text t cs"
    using same_lower_same_category by blast
qed

theorem categorize_text_case_insensitive_witness:
  "py_lower ''My THESIS'' = py_lower ''my Thesis''
   \<and> categorize_text ''My THESIS'' PREDEFINED_CATEGORIES
       = categorize_text ''my Thesis'' PREDEFINED_CATEGORIES
   \<and> list_all is_ascii ''my Thesis''
   \<and> py_upper ''my Thesis'' = Some ''MY THESIS''
   \<and> categorize_text ''MY THESIS'' PREDEFINED_CATEGORIES
       = categorize_text ''my Thesis'' PREDEFINED_CATEGORIES
   \<and> categorize_text ''my Thesis'' PREDEFINED_CATEGORIES = Some ''Theses & Dissertations''"
proof -
  note inst = categorize_text_case_insensitive
    [of "''My THESIS''" "''my Thesis''" PREDEFINED_CATEGORIES]
  have l: "py_lower ''My THESIS'' = py_lower ''my Thesis''" by code_simp
  have a: "list_all is_ascii ''my Thesis''" by code_simp
  have u: "py_upper ''my Thesis'' = Some ''MY THESIS''" by code_simp
  have r: "categorize_text ''my Thesis'' PREDEFINED_CATEGORIES = Some ''Theses & Dissertations''"
    by code_simp
  from inst l have 1: "categorize_text ''My THESIS'' PREDEFINED_CATEGORIES
       = categorize_text ''my Thesis'' PREDEFINED_CATEGORIES" by blast
  from a have "\<forall>c \<in> set ''my Thesis''. is_ascii c" by (simp only: list_all_iff)
  with inst obtain v where "py_upper ''my Thesis'' = Some v"
    "categorize_text v PREDEFINED_CATEGORIES = categorize_text ''my Thesis'' PREDEFINED_CATEGORIES"
    by blast
  with u have 2: "categorize_text ''MY THESIS'' PREDEFINED_CATEGORIES
       = categorize_text ''my Thesis'' PREDEFINED_CATEGORIES" by simp
  from l 1 a u 2 r show ?thesis by blast
qed

text \<open>
  Claim C9 as stated fails for the uppercased text: \<open>str.upper\<close> turns the letter
  U+00DF into \<open>SS\<close>, so the uppercased form of a text with that letter has another
  lowercased form, here one that holds the keyword \<open>dissertation\<close>.
\<close>

theorem uppercase_changes_category:
  "py_upper (''di'' @ [CHR 0xDF] @ ''ertation'') = Some ''DISSERTATION''
   \<and> categorize_text (''di'' @ [CHR 0xDF] @ ''ertation'') PREDEFINED_CATEGORIES = None
   \<and> categorize_text ''DISSERTATION'' PREDEFINED_CATEGORIES = Some ''Theses & Dissertations''"
  by code_simp

section \<open>Text extraction\<close>

lemma try_except_Inr [simp]: "try_except (Inr v) hs = Inr v"
  by (simp add: try_except_def)

lemma bind_exc_simps [simp]: "bind_exc (Inl e) f = Inl e" "bind_exc (Inr v) f = f v"
  by (simp_all add: bind_exc_def)

lemma isinstance_Exception [simp]: "isinstance e Exception"
  by (cases e) simp

lemma try_except_wrap [simp]:
  "try_except (Inl e) [(Exception, h)] = h e"
  by (simp add: try_except_def)

lemma paragraphs_loop_eq: "paragraphs_loop ps acc = acc @ ps"
  by (induction ps arbitrary: acc) auto

lemma pages_loop_eq: "pages_loop ps acc = acc @ map page_text ps"
  by (induction ps arbitrary: acc) (auto simp: page_text_def split: option.splits)

lemma cells_loop_eq: "cells_loop row acc = acc @ row_values row"
  by (induction row arbitrary: acc) (auto simp: row_values_def split: option.splits)

lemma rows_loop_eq: "rows_loop rows acc = acc @ sheet_values rows"
  by (induction rows arbitrary: acc) (auto simp: sheet_values_def cells_loop_eq)

lemma shapes_loop_eq: "shapes_loop sh acc = acc @ row_values sh"
  by (induction sh arbitrary: acc) (auto simp: row_values_def split: option.splits)

lemma sheets_loop_eq:
  "\<forall>n \<in> set names. map_of wb n \<noteq> None \<Longrightarrow>
   sheets_loop wb names acc =
     Inr (acc @ concat (map (\<lambda>n. sheet_values (the (map_of wb n))) names))"
  by (induction names arbitrary: acc) (auto simp: rows_loop_eq)

lemma map_of_distinct_fst:
  "distinct (map fst wb) \<Longrightarrow> x \<in> set wb \<Longrightarrow> map_of wb (fst x) = Some (snd x)"
  by (cases x) simp

lemma sheets_loop_all:
  assumes "distinct (map fst wb)"
  shows "sheets_loop wb (map fst wb) [] = Inr (cell_values wb)"
proof -
  have look: "\<And>x. x \<in> set wb \<Longrightarrow> map_of wb (fst x) = Some (snd x)"
    using assms by (rule map_of_distinct_fst)
  then have "\<forall>n \<in> set (map fst wb). map_of wb n \<noteq> None" by auto
  then have "sheets_loop wb (map fst wb) [] =
      Inr ([] @ concat (map (\<lambda>n. sheet_values (the (map_of wb n))) (map fst wb)))"
    by (rule sheets_loop_eq)
  moreover have "map (\<lambda>n. sheet_values (the (map_of wb n))) (map fst wb)
      = map (\<lambda>(name, rows). sheet_values rows) wb"
    using look by (auto simp: case_prod_beta)
  ultimately show ?thesis by (simp only: cell_values_def append_Nil)
qed

lemma extract_excel_cases:
  "extract_text_from_excel fs p = Inr t \<Longrightarrow>
     \<exists>d wb. contents fs (path_parts p) = Some d \<and> xlsx_sheets d = Inr wb"
  by (auto simp: extract_text_from_excel_def open_file_def try_except_def bind_exc_def
           split: option.splits sum.splits)


lemma count_list_append [simp]: "count_list (xs @ ys) c = count_list xs c + count_list ys c"
  by (induction xs) auto

lemma count_join:
  "xs \<noteq> [] \<Longrightarrow>
   count_list (py_join [c] xs) c = (length xs - 1) + sum_list (map (\<lambda>x. count_list x c) xs)"
  by (induction "[c]" xs rule: py_join.induct) auto

lemma extract_pdf_cases:
  "extract_text_from_pdf fs p = Inr t \<Longrightarrow>
     \<exists>d pages. contents fs (path_parts p) = Some d \<and> pdf_pages d = Inr pages
        \<and> t = py_join newline (map page_text pages)"
  by (auto simp: extract_text_from_pdf_def open_file_def try_except_def bind_exc_def pages_loop_eq
           split: option.splits sum.splits)

text \<open>
  Claim C7, as amended.  When the extraction of a PDF succeeds, the text is the texts of
  the pages, in page order, joined by newlines; a page without extractable text
  contributes the empty string and is not left out.  The number of newline-separated
  lines is the number of pages when there is at least one page and no page's text holds
  a newline.
\<close>

theorem pdf_text_is_joined_pages:
  assumes "extract_text_from_pdf fs file_path = Inr t"
  shows "\<exists>d pages. contents fs (path_parts file_path) = Some d \<and> pdf_pages d = Inr pages
           \<and> t = py_join newline (map page_text pages)
           \<and> length (map page_text pages) = length pages
           \<and> (pages \<noteq> [] \<and> (\<forall>page \<in> set pages. CHR 0x0A \<notin> set (page_text page))
                \<longrightarrow> line_count t = length pages)"
proof -
  from assms obtain d pages where h: "contents fs (path_parts file_path) = Some d"
    "pdf_pages d = Inr pages" "t = py_join newline (map page_text pages)"
    using extract_pdf_cases by blast
  have "line_count t = length pages"
    if ne: "pages \<noteq> []" and nl: "\<forall>page \<in> set pages. CHR 0x0A \<notin> set (page_text page)"
  proof -
    have "sum_list (map (\<lambda>x. count_list x (CHR 0x0A)) (map page_text pages)) = 0"
      using nl by (simp add: o_def count_list_0_iff)
    moreover have "count_list (py_join [CHR 0x0A] (map page_text pages)) (CHR 0x0A) =
        (length (map page_text pages) - 1)
        + sum_list (map (\<lambda>x. count_list x (CHR 0x0A)) (map page_text pages))"
      using ne by (intro count_join) simp
    ultimately show ?thesis using ne h(3) by (cases pages) (simp_all add: line_count_def newline_def)
  qed
  with h show ?thesis by auto
qed

theorem pdf_text_is_joined_pages_witness:
  "extract_text_from_pdf example_fs ''/src/pages.pdf'' = Inr (''one'' @ [CHR 0x0A, CHR 0x0A] @ ''three'')
   \<and> line_count (''one'' @ [CHR 0x0A, CHR 0x0A] @ ''three'') = 3"
proof -
  let ?t = "''one'' @ [CHR 0x0A, CHR 0x0A] @ ''three''"
  have ex: "extract_text_from_pdf example_fs ''/src/pages.pdf'' = Inr ?t"
    by code_simp
  have c: "contents example_fs (path_parts ''/src/pages.pdf'')
      = Some (pdf_file [Some ''one'', None, Some ''three''])"
    by code_simp
  from pdf_text_is_joined_pages [OF ex] c
  have "[Some ''one'', None, Some ''three''] \<noteq> [] \<and>
        (\<forall>page \<in> set [Some ''one'', None, Some ''three'']. CHR 0x0A \<notin> set (page_text page))
        \<longrightarrow> line_count ?t = length [Some ''one'', None, Some ''three'']"
    by (auto simp: pdf_file_def)
  moreover have "\<forall>page \<in> set [Some ''one'', None, Some ''three'']. CHR 0x0A \<notin> set (page_text page)"
    by (simp add: page_text_def)
  ultimately have "line_count ?t = 3" by simp
  with ex show ?thesis by simp
qed

text \<open>
  Claim C7 as stated fails: a page whose text holds a newline gives more lines than
  pages.  Here one page gives two lines.
\<close>

theorem pdf_lines_exceed_pages:
  "map_option pdf_pages (contents example_fs (path_parts ''/src/two_lines.pdf''))
     = Some (Inr [Some (''first line'' @ [CHR 0x0A] @ ''second line'')])
   \<and> extract_text_from_pdf example_fs ''/src/two_lines.pdf''
     = Inr (''first line'' @ [CHR 0x0A] @ ''second line'')
   \<and> line_count (''first line'' @ [CHR 0x0A] @ ''second line'') = 2
   \<and> length [Some (''first line'' @ [CHR 0x0A] @ ''second line'')] = 1"
  by code_simp

lemma sheets_loop_visited:
  "sheets_loop wb (map fst wb) [] = Inr (visited_values wb)"
proof -
  have "\<forall>n \<in> set (map fst wb). map_of wb n \<noteq> None"
    by (auto simp: map_of_eq_None_iff)
  then have "sheets_loop wb (map fst wb) [] =
      Inr ([] @ concat (map (\<lambda>n. sheet_values (the (map_of wb n))) (map fst wb)))"
    by (rule sheets_loop_eq)
  moreover have "map (\<lambda>n. sheet_values (the (map_of wb n))) (map fst wb)
      = map (\<lambda>n. sheet_values (first_sheet_named wb n)) (map fst wb)"
    by (auto simp: first_sheet_named_def map_of_eq_None_iff split: option.splits)
  ultimately show ?thesis by (simp only: visited_values_def append_Nil)
qed

lemma visited_values_distinct:
  assumes "distinct (map fst wb)"
  shows "visited_values wb = cell_values wb"
  using sheets_loop_visited [of wb] sheets_loop_all [OF assms] by simp

text \<open>
  Claim C8, as amended.  When the extraction of a spreadsheet succeeds, the text is the
  values of the non-empty cells joined by newlines, the sheet names taken in workbook
  order, for each name the first sheet of that name, its rows in row order and the
  cells of a row in order.  When the sheet names of the workbook are unique, these are
  the values of all non-empty cells of the workbook, sheet by sheet; and then the number
  of newline-separated lines is the number of non-empty cells when there is at least one
  and no value holds a newline.
\<close>

theorem excel_text_is_joined_cells:
  assumes "extract_text_from_excel fs file_path = Inr t"
  shows "\<exists>d wb. contents fs (path_parts file_path) = Some d \<and> xlsx_sheets d = Inr wb
           \<and> t = py_join newline (visited_values wb)
           \<and> (distinct (map fst wb) \<longrightarrow> t = py_join newline (cell_values wb))
           \<and> (distinct (map fst wb) \<and> cell_values wb \<noteq> []
                \<and> (\<forall>v \<in> set (cell_values wb). CHR 0x0A \<notin> set v)
                \<longrightarrow> line_count t = length (cell_values wb))"
proof -
  from assms obtain d wb where h: "contents fs (path_parts file_path) = Some d"
    "xlsx_sheets d = Inr wb"
    using extract_excel_cases by blast
  have t: "t = py_join newline (visited_values wb)"
    using assms h sheets_loop_visited [of wb]
    by (simp add: extract_text_from_excel_def open_file_def)
  have j: "t = py_join newline (cell_values wb)" if "distinct (map fst wb)"
    using t visited_values_distinct [OF that] by simp
  have "line_count t = length (cell_values wb)"
    if di: "distinct (map fst wb)" and ne: "cell_values wb \<noteq> []"
      and nl: "\<forall>v \<in> set (cell_values wb). CHR 0x0A \<notin> set v"
  proof -
    have "sum_list (map (\<lambda>x. count_list x (CHR 0x0A)) (cell_values wb)) = 0"
      using nl by (simp add: count_list_0_iff)
    moreover have "count_list (py_join [CHR 0x0A] (cell_values wb)) (CHR 0x0A) =
        (length (cell_values wb) - 1)
        + sum_list (map (\<lambda>x. count_list x (CHR 0x0A)) (cell_values wb))"
      using ne by (rule count_join)
    ultimately show ?thesis using ne j [OF di]
      by (cases "cell_values wb") (simp_all add: line_count_def newline_def)
  qed
  with h t j show ?thesis by blast
qed

theorem excel_text_is_joined_cells_witness:
  "extract_text_from_excel example_fs ''/src/marks.xlsx''
     = Inr (''name'' @ [CHR 0x0A] @ ''mark'' @ [CHR 0x0A] @ ''Ann'' @ [CHR 0x0A] @ ''5''
            @ [CHR 0x0A] @ ''total'')
   \<and> distinct [''Sheet1'', ''Sheet2'']
   \<and> cell_values [(''Sheet1'', [[Some ''name'', None, Some ''mark''], [], [Some ''Ann'', Some ''5'']]),
                    (''Sheet2'', [[None, Some ''total'']])]
     = [''name'', ''mark'', ''Ann'', ''5'', ''total'']
   \<and> line_count (''name'' @ [CHR 0x0A] @ ''mark'' @ [CHR 0x0A] @ ''Ann'' @ [CHR 0x0A] @ ''5''
            @ [CHR 0x0A] @ ''total'') = 5"
proof -
  let ?wb = "[(''Sheet1'', [[Some ''name'', None, Some ''mark''], [], [Some ''Ann'', Some ''5'']]),
              (''Sheet2'', [[None, Some ''total'']])]"
  let ?t = "''name'' @ [CHR 0x0A] @ ''mark'' @ [CHR 0x0A] @ ''Ann'' @ [CHR 0x0A] @ ''5''
            @ [CHR 0x0A] @ ''total''"
  have ex: "extract_text_from_excel example_fs ''/src/marks.xlsx'' = Inr ?t"
    by code_simp
  have c: "contents example_fs (path_parts ''/src/marks.xlsx'') = Some (xlsx_file ?wb)"
    by code_simp
  have d: "distinct (map fst ?wb)" by simp
  have v: "cell_values ?wb = [''name'', ''mark'', ''Ann'', ''5'', ''total'']"
    by code_simp
  from excel_text_is_joined_cells [OF ex] c
  have "distinct (map fst ?wb) \<and> cell_values ?wb \<noteq> []
          \<and> (\<forall>v \<in> set (cell_values ?wb). CHR 0x0A \<notin> set v)
        \<longrightarrow> line_count ?t = length (cell_values ?wb)"
    by (auto simp: xlsx_file_def)
  moreover have "\<forall>v \<in> set (cell_values ?wb). CHR 0x0A \<notin> set v"
    unfolding v by simp
  moreover have "cell_values ?wb \<noteq> []" unfolding v by simp
  ultimately have "line_count ?t = length (cell_values ?wb)" using d by blast
  then have "line_count ?t = 5" unfolding v by simp
  with ex d v show ?thesis by simp
qed

text \<open>
  Claim C8 as stated fails.  In a workbook with two sheets of the same name the first
  one is read twice and the second one never: the text is \<open>a\<close>, \<open>a\<close> and not the cells
  \<open>a\<close>, \<open>b\<close> of the workbook.  And a cell whose value holds a newline gives two lines for
  one cell.
\<close>

theorem excel_repeats_first_sheet:
  "map_option xlsx_sheets (contents example_fs (path_parts ''/src/twins.xlsx''))
     = Some (Inr [(''S'', [[Some ''a'']]), (''S'', [[Some ''b'']])])
   \<and> extract_text_from_excel example_fs ''/src/twins.xlsx'' = Inr (''a'' @ [CHR 0x0A] @ ''a'')
   \<and> py_join newline (cell_values [(''S'', [[Some ''a'']]), (''S'', [[Some ''b'']])])
     = ''a'' @ [CHR 0x0A] @ ''b''
   \<and> map_option xlsx_sheets (contents example_fs (path_parts ''/src/address.xlsx''))
     = Some (Inr [(''Sheet1'', [[Some (''1 Main St'' @ [CHR 0x0A] @ ''Springfield'')]])])
   \<and> extract_text_from_excel example_fs ''/src/address.xlsx''
     = Inr (''1 Main St'' @ [CHR 0x0A] @ ''Springfield'')
   \<and> line_count (''1 Main St'' @ [CHR 0x0A] @ ''Springfield'') = 2
   \<and> length (cell_values [(''Sheet1'', [[Some (''1 Main St'' @ [CHR 0x0A] @ ''Springfield'')]])]) = 1"
  by code_simp

lemma dispatch_supported_not_None:
  assumes "ext \<in> set ALL_SUPPORTED_EXTENSIONS" "ext \<noteq> ''.doc''"
  shows "fst (dispatch fs p ext) \<noteq> Inr None" "snd (dispatch fs p ext) = []"
  using assms
  by (auto simp: dispatch_def returning_def bind_exc_def ALL_SUPPORTED_EXTENSIONS_def
      DOC_EXTENSIONS_def PDF_EXTENSIONS_def EXCEL_EXTENSIONS_def POWERPOINT_EXTENSIONS_def
      split: sum.splits)

lemma try_except_None:
  "try_except r [(TextExtractionError, Inl), (Exception, \<lambda>e. Inl (h e))] = Inr v \<longleftrightarrow> r = Inr v"
  by (cases r) (auto simp: try_except_def)

lemma extract_text_print:
  assumes "isfile fs p"
    and "dispatch fs p (py_lower (snd (splitext p))) = print_return_None fs ev"
  shows "stdout_error fs ev = None \<Longrightarrow> extract_text fs p = (Inr None, [ev])"
    and "stdout_error fs ev = Some e \<Longrightarrow>
         \<exists>x. extract_text fs p = (Inl x, []) \<and> isinstance x TextExtractionError"
proof -
  show "extract_text fs p = (Inr None, [ev])" if "stdout_error fs ev = None"
    using assms that by (simp add: extract_text_def print_return_None_def)
  show "\<exists>x. extract_text fs p = (Inl x, []) \<and> isinstance x TextExtractionError"
    if "stdout_error fs ev = Some e"
    using assms that by (simp add: extract_text_def print_return_None_def try_except_def)
qed

lemma dispatch_doc:
  "dispatch fs p ''.doc'' = print_return_None fs (Print_legacy_doc p)"
  by (simp add: dispatch_def DOC_EXTENSIONS_def)

lemma dispatch_unsupported:
  "ext \<notin> set ALL_SUPPORTED_EXTENSIONS \<Longrightarrow>
   dispatch fs p ext = print_return_None fs (Print_unsupported p ext)"
  by (simp add: dispatch_def ALL_SUPPORTED_EXTENSIONS_def)

text \<open>
  Claim C3, as amended.  For an existing file, \<open>extract_text\<close> returns \<open>None\<close> exactly
  when the lowercased extension is outside the four supported groups or is \<open>.doc\<close>, and
  the \<open>print\<close> of the diagnostic does not raise; this is then a normal return after the
  diagnostic.  When the \<open>print\<close> of the diagnostic raises, \<open>extract_text\<close> raises a
  \<open>TextExtractionError\<close> and nothing is printed.  For \<open>.doc\<close> the outcome does not depend
  on what the file holds, as no library is called.
\<close>

theorem extract_text_none_iff:
  assumes "isfile fs file_path" and "ext = py_lower (snd (splitext file_path))"
  shows "(fst (extract_text fs file_path) = Inr None \<longleftrightarrow>
            (ext = ''.doc'' \<and> stdout_error fs (Print_legacy_doc file_path) = None)
            \<or> (ext \<notin> set ALL_SUPPORTED_EXTENSIONS
                 \<and> stdout_error fs (Print_unsupported file_path ext) = None))
       \<and> (ext = ''.doc'' \<and> stdout_error fs (Print_legacy_doc file_path) = None \<longrightarrow>
            extract_text fs file_path = (Inr None, [Print_legacy_doc file_path]))
       \<and> (ext \<notin> set ALL_SUPPORTED_EXTENSIONS
            \<and> stdout_error fs (Print_unsupported file_path ext) = None \<longrightarrow>
            extract_text fs file_path = (Inr None, [Print_unsupported file_path ext]))
       \<and> (ext = ''.doc'' \<and> stdout_error fs (Print_legacy_doc file_path) \<noteq> None \<longrightarrow>
            (\<exists>x. extract_text fs file_path = (Inl x, []) \<and> isinstance x TextExtractionError))
       \<and> (ext \<notin> set ALL_SUPPORTED_EXTENSIONS
            \<and> stdout_error fs (Print_unsupported file_path ext) \<noteq> None \<longrightarrow>
            (\<exists>x. extract_text fs file_path = (Inl x, []) \<and> isinstance x TextExtractionError))
       \<and> (ext = ''.doc'' \<and> isfile fs' file_path \<and> stdout_error fs' = stdout_error fs \<longrightarrow>
            extract_text fs' file_path = extract_text fs file_path)"
proof -
  have ddoc: "dispatch g file_path (py_lower (snd (splitext file_path)))
      = print_return_None g (Print_legacy_doc file_path)" if "ext = ''.doc''" for g
    using that assms(2) dispatch_doc [of g file_path] by simp
  have duns: "dispatch fs file_path (py_lower (snd (splitext file_path)))
      = print_return_None fs (Print_unsupported file_path ext)"
    if "ext \<notin> set ALL_SUPPORTED_EXTENSIONS"
    using dispatch_unsupported [OF that, of fs file_path] assms(2) by simp
  have doc_ok: "extract_text fs file_path = (Inr None, [Print_legacy_doc file_path])"
    if "ext = ''.doc''" "stdout_error fs (Print_legacy_doc file_path) = None"
    using extract_text_print(1) [OF assms(1) ddoc [OF that(1)] that(2)] .
  have uns_ok: "extract_text fs file_path = (Inr None, [Print_unsupported file_path ext])"
    if "ext \<notin> set ALL_SUPPORTED_EXTENSIONS"
      "stdout_error fs (Print_unsupported file_path ext) = None"
    using extract_text_print(1) [OF assms(1) duns [OF that(1)] that(2)] .
  have doc_bad: "\<exists>x. extract_text fs file_path = (Inl x, []) \<and> isinstance x TextExtractionError"
    if "ext = ''.doc''" "stdout_error fs (Print_legacy_doc file_path) \<noteq> None"
  proof -
    from that(2) obtain e where "stdout_error fs (Print_legacy_doc file_path) = Some e" by auto
    then show ?thesis using extract_text_print(2) [OF assms(1) ddoc [OF that(1)]] by blast
  qed
  have uns_bad: "\<exists>x. extract_text fs file_path = (Inl x, []) \<and> isinstance x TextExtractionError"
    if "ext \<notin> set ALL_SUPPORTED_EXTENSIONS"
      "stdout_error fs (Print_unsupported file_path ext) \<noteq> None"
  proof -
    from that(2) obtain e where "stdout_error fs (Print_unsupported file_path ext) = Some e"
      by auto
    then show ?thesis using extract_text_print(2) [OF assms(1) duns [OF that(1)]] by blast
  qed
  have sup: "fst (extract_text fs file_path) \<noteq> Inr None"
    if "ext \<in> set ALL_SUPPORTED_EXTENSIONS" "ext \<noteq> ''.doc''"
    using dispatch_supported_not_None [OF that, of fs file_path] assms
    by (simp add: extract_text_def case_prod_beta try_except_None)
  have same: "extract_text fs' file_path = extract_text fs file_path"
    if "ext = ''.doc''" "isfile fs' file_path" "stdout_error fs' = stdout_error fs"
    using that assms ddoc [OF that(1), of fs] ddoc [OF that(1), of fs']
    by (simp add: extract_text_def print_return_None_def)
  have iff: "fst (extract_text fs file_path) = Inr None \<longleftrightarrow>
            (ext = ''.doc'' \<and> stdout_error fs (Print_legacy_doc file_path) = None)
            \<or> (ext \<notin> set ALL_SUPPORTED_EXTENSIONS
                 \<and> stdout_error fs (Print_unsupported file_path ext) = None)"
  proof
    assume n: "fst (extract_text fs file_path) = Inr None"
    show "(ext = ''.doc'' \<and> stdout_error fs (Print_legacy_doc file_path) = None)
            \<or> (ext \<notin> set ALL_SUPPORTED_EXTENSIONS
                 \<and> stdout_error fs (Print_unsupported file_path ext) = None)"
    proof (cases "ext = ''.doc''")
      case True
      then show ?thesis using doc_bad n by fastforce
    next
      case False
      then have "ext \<notin> set ALL_SUPPORTED_EXTENSIONS" using sup n by blast
      then show ?thesis using uns_bad n by fastforce
    qed
  next
    assume "(ext = ''.doc'' \<and> stdout_error fs (Print_legacy_doc file_path) = None)
            \<or> (ext \<notin> set ALL_SUPPORTED_EXTENSIONS
                 \<and> stdout_error fs (Print_unsupported file_path ext) = None)"
    then show "fst (extract_text fs file_path) = Inr None"
      using doc_ok uns_ok by auto
  qed
  show ?thesis using iff doc_ok uns_ok doc_bad uns_bad same by blast
qed

theorem extract_text_none_iff_witness:
  "isfile example_fs ''/src/old.DOC''
   \<and> py_lower (snd (splitext ''/src/old.DOC'')) = ''.doc''
   \<and> stdout_error example_fs (Print_legacy_doc ''/src/old.DOC'') = None
   \<and> extract_text example_fs ''/src/old.DOC'' = (Inr None, [Print_legacy_doc ''/src/old.DOC''])
   \<and> isfile example_fs ''/src/notes.txt''
   \<and> py_lower (snd (splitext ''/src/notes.txt'')) = ''.txt''
   \<and> ''.txt'' \<notin> set ALL_SUPPORTED_EXTENSIONS
   \<and> stdout_error example_fs (Print_unsupported ''/src/notes.txt'' ''.txt'') = None
   \<and> extract_text example_fs ''/src/notes.txt''
       = (Inr None, [Print_unsupported ''/src/notes.txt'' ''.txt''])
   \<and> isfile example_fs ''/src/thesis.docx''
   \<and> py_lower (snd (splitext ''/src/thesis.docx'')) = ''.docx''
   \<and> ''.docx'' \<in> set ALL_SUPPORTED_EXTENSIONS
   \<and> fst (extract_text example_fs ''/src/thesis.docx'') \<noteq> Inr None
   \<and> isfile example_fs (''/src/caf'' @ [CHR 0xE9] @ ''.doc'')
   \<and> py_lower (snd (splitext (''/src/caf'' @ [CHR 0xE9] @ ''.doc''))) = ''.doc''
   \<and> stdout_error example_fs (Print_legacy_doc (''/src/caf'' @ [CHR 0xE9] @ ''.doc'')) \<noteq> None
   \<and> isinstance (projl (fst (extract_text example_fs (''/src/caf'' @ [CHR 0xE9] @ ''.doc''))))
         TextExtractionError"
proof -
  let ?cafe = "''/src/caf'' @ [CHR 0xE9] @ ''.doc''"
  have f1: "isfile example_fs ''/src/old.DOC''" by code_simp
  have e1: "py_lower (snd (splitext ''/src/old.DOC'')) = ''.doc''" by code_simp
  have p1: "stdout_error example_fs (Print_legacy_doc ''/src/old.DOC'') = None" by code_simp
  have f2: "isfile example_fs ''/src/notes.txt''" by code_simp
  have e2: "py_lower (snd (splitext ''/src/notes.txt'')) = ''.txt''" by code_simp
  have n2: "''.txt'' \<notin> set ALL_SUPPORTED_EXTENSIONS" by code_simp
  have p2: "stdout_error example_fs (Print_unsupported ''/src/notes.txt'' ''.txt'') = None"
    by code_simp
  have f3: "isfile example_fs ''/src/thesis.docx''" by code_simp
  have e3: "py_lower (snd (splitext ''/src/thesis.docx'')) = ''.docx''" by code_simp
  have n3: "''.docx'' \<in> set ALL_SUPPORTED_EXTENSIONS" by code_simp
  have f4: "isfile example_fs ?cafe" by code_simp
  have e4: "py_lower (snd (splitext ?cafe)) = ''.doc''" by code_simp
  have p4: "stdout_error example_fs (Print_legacy_doc ?cafe) \<noteq> None" by code_simp
  have "extract_text example_fs ''/src/old.DOC'' = (Inr None, [Print_legacy_doc ''/src/old.DOC''])"
    using extract_text_none_iff [OF f1 e1 [symmetric]] p1 by blast
  moreover have "extract_text example_fs ''/src/notes.txt''
       = (Inr None, [Print_unsupported ''/src/notes.txt'' ''.txt''])"
    using extract_text_none_iff [OF f2 e2 [symmetric]] n2 p2 by blast
  moreover have "fst (extract_text example_fs ''/src/thesis.docx'') \<noteq> Inr None"
    using extract_text_none_iff [OF f3 e3 [symmetric]] n3 by simp
  moreover have "\<exists>x. extract_text example_fs ?cafe = (Inl x, []) \<and> isinstance x TextExtractionError"
    using extract_text_none_iff [OF f4 e4 [symmetric]] p4 by blast
  then have "isinstance (projl (fst (extract_text example_fs ?cafe))) TextExtractionError"
    by auto
  ultimately show ?thesis using f1 e1 p1 f2 e2 n2 p2 f3 e3 n3 f4 e4 p4 by blast
qed

text \<open>
  Claim C3 as stated fails: the diagnostic is printed inside the \<open>try\<close> statement, so a
  \<open>print\<close> that raises turns the return of \<open>None\<close> into a \<open>TextExtractionError\<close>.  Here
  an existing \<open>.doc\<close> file has a name that standard output cannot encode.
\<close>

theorem legacy_doc_raises:
  "isfile example_fs (''/src/caf'' @ [CHR 0xE9] @ ''.doc'')
   \<and> py_lower (snd (splitext (''/src/caf'' @ [CHR 0xE9] @ ''.doc''))) = ''.doc''
   \<and> extract_text example_fs (''/src/caf'' @ [CHR 0xE9] @ ''.doc'')
     = (Inl (Exc TextExtractionError
          (''An unexpected error occurred while processing ''
             @ quoted (''/src/caf'' @ [CHR 0xE9] @ ''.doc'') @ '': ordinal not in range(128)'')), [])"
  by code_simp

lemma parser_error_group:
  "parser_error d ext = Some e \<Longrightarrow>
     ext \<in> set ALL_SUPPORTED_EXTENSIONS \<and> ext \<noteq> ''.doc''"
  by (auto simp: parser_error_def ALL_SUPPORTED_EXTENSIONS_def DOC_EXTENSIONS_def
      PDF_EXTENSIONS_def EXCEL_EXTENSIONS_def POWERPOINT_EXTENSIONS_def
      split: if_splits sum.splits)

lemma helper_raises:
  "extract_text_from_docx fs p = Inl x \<Longrightarrow> isinstance x TextExtractionError"
  "extract_text_from_pdf fs p = Inl x \<Longrightarrow> isinstance x TextExtractionError"
  "extract_text_from_excel fs p = Inl x \<Longrightarrow> isinstance x TextExtractionError"
  "extract_text_from_pptx fs p = Inl x \<Longrightarrow> isinstance x TextExtractionError"
  by (auto simp: extract_text_from_docx_def extract_text_from_pdf_def
      extract_text_from_excel_def extract_text_from_pptx_def try_except_def
      split: sum.splits)




section \<open>Paths\<close>

lemma split_sep_not_Nil [simp]: "split_sep s \<noteq> []"
  by (induction s) (auto split: list.splits)




















lemma basename_no_sep: "sep \<notin> set (basename p)"
proof -
  have "sep \<notin> set (takeWhile (\<lambda>c. c \<noteq> sep) (rev p))"
    by (auto dest: set_takeWhileD)
  then show ?thesis by (simp add: basename_def)
qed

lemma basename_idem: "basename (basename p) = basename p"
proof -
  have "takeWhile (\<lambda>c. c \<noteq> sep) (takeWhile (\<lambda>c. c \<noteq> sep) (rev p)) = takeWhile (\<lambda>c. c \<noteq> sep) (rev p)"
    by (auto dest: set_takeWhileD)
  then show ?thesis by (simp add: basename_def)
qed

lemma splitext_basename: "snd (splitext (basename p)) = snd (splitext p)"
  by (simp add: splitext_def basename_idem Let_def)

lemma basename_plain:
  assumes "sep \<notin> set b"
  shows "basename b = b"
proof -
  have "\<forall>c \<in> set (rev b). c \<noteq> sep" using assms by auto
  then have tw: "takeWhile (\<lambda>c. c \<noteq> sep) (rev b) = rev b"
    by (simp only: takeWhile_eq_all_conv)
  show ?thesis unfolding basename_def tw by simp
qed

lemma basename_append_sep:
  assumes "sep \<notin> set b"
  shows "basename (a @ sep # b) = b"
proof -
  have "takeWhile (\<lambda>c. c \<noteq> sep) (rev b @ sep # rev a)
      = rev b @ takeWhile (\<lambda>c. c \<noteq> sep) (sep # rev a)"
    by (rule takeWhile_append2) (use assms in auto)
  then have tw: "takeWhile (\<lambda>c. c \<noteq> sep) (rev b @ sep # rev a) = rev b"
    by simp
  have "rev (a @ sep # b) = rev b @ sep # rev a" by simp
  then show ?thesis unfolding basename_def using tw by (simp only: rev_rev_ident)
qed

lemma basename_append_slash:
  assumes "sep \<notin> set b" "a \<noteq> []" "last a = sep"
  shows "basename (a @ b) = b"
proof -
  have "a = butlast a @ [sep]" using assms(2,3) by (metis append_butlast_last_id)
  then have e: "a @ b = butlast a @ sep # b" by (metis append.assoc append_Cons append_Nil)
  have "basename (butlast a @ sep # b) = b" using assms(1) by (rule basename_append_sep)
  then show ?thesis by (simp only: e)
qed

lemma basename_join:
  assumes "proper_name b"
  shows "basename (path_join a b) = b"
proof -
  have nb: "sep \<notin> set b" "b \<noteq> []" using assms by (auto simp: proper_name_def)
  then have hb: "hd b \<noteq> sep" using hd_in_set by metis
  consider (empty) "a = []" | (slash) "a \<noteq> []" "last a = sep" | (plain) "a \<noteq> []" "last a \<noteq> sep"
    by blast
  then show ?thesis
  proof cases
    case empty
    then show ?thesis using hb nb by (simp add: path_join_def basename_plain)
  next
    case slash
    then show ?thesis using hb nb by (simp add: path_join_def basename_append_slash)
  next
    case plain
    then show ?thesis using hb nb by (simp add: path_join_def basename_append_sep)
  qed
qed

section \<open>The file system\<close>

lemma fsys_emit [simp]: "fsys (emit ev w) = fsys w"
  by (simp add: emit_def)

lemma trace_emit [simp]: "trace (emit ev w) = trace w @ [ev]"
  by (simp add: emit_def)

lemma handle_Exception [simp]: "handle [(Exception, h)] k e = h e"
  by simp

lemma isinstance_FileNotFound_OSError: "isinstance e FileNotFoundError \<Longrightarrow> isinstance e OSError"
  by (cases e) simp

lemma attempted_append [simp]: "attempted (xs @ ys) = attempted xs @ attempted ys"
  by (induction xs rule: attempted.induct) auto

lemma relocations_append [simp]: "relocations (xs @ ys) = relocations xs @ relocations ys"
  by (induction xs rule: relocations.induct) auto

lemma mkdir_loop_frame:
  "mkdir_loop fs ks = (r, fs') \<Longrightarrow>
     contents fs' = contents fs \<and> refusal fs' = refusal fs \<and> stdout_error fs' = stdout_error fs
     \<and> dirs fs \<subseteq> dirs fs' \<and> dirs fs' \<subseteq> dirs fs \<union> set ks"
proof (induction ks arbitrary: fs)
  case Nil
  then show ?case by simp
next
  case (Cons a ks)
  show ?case
  proof (cases "a \<in> dirs fs")
    case True
    with Cons.prems have "mkdir_loop fs ks = (r, fs')" by simp
    from Cons.IH [OF this] show ?thesis by auto
  next
    case nd: False
    show ?thesis
    proof (cases "contents fs a \<noteq> None")
      case True
      with nd Cons.prems show ?thesis by auto
    next
      case nf: False
      show ?thesis
      proof (cases "refusal fs a")
        case (Some e)
        with nd nf Cons.prems show ?thesis by auto
      next
        case None
        with nd nf Cons.prems
        have "mkdir_loop (fs\<lparr>dirs := insert a (dirs fs)\<rparr>) ks = (r, fs')" by simp
        from Cons.IH [OF this] show ?thesis by auto
      qed
    qed
  qed
qed

lemma mkdir_loop_Inr:
  "mkdir_loop fs ks = (Inr u, fs') \<Longrightarrow> set ks \<subseteq> dirs fs'"
proof (induction ks arbitrary: fs)
  case Nil
  then show ?case by simp
next
  case (Cons a ks)
  show ?case
  proof (cases "a \<in> dirs fs")
    case True
    with Cons.prems have l: "mkdir_loop fs ks = (Inr u, fs')" by simp
    from Cons.IH [OF l] mkdir_loop_frame [OF l] True show ?thesis by auto
  next
    case nd: False
    show ?thesis
    proof (cases "contents fs a \<noteq> None")
      case True
      with nd Cons.prems show ?thesis by auto
    next
      case nf: False
      show ?thesis
      proof (cases "refusal fs a")
        case (Some e)
        with nd nf Cons.prems show ?thesis by auto
      next
        case None
        with nd nf Cons.prems
        have l: "mkdir_loop (fs\<lparr>dirs := insert a (dirs fs)\<rparr>) ks = (Inr u, fs')" by simp
        from Cons.IH [OF l] mkdir_loop_frame [OF l] show ?thesis by auto
      qed
    qed
  qed
qed



lemma mkdir_parents_frame:
  assumes "mkdir_parents fs p = (r, fs')"
  shows "contents fs' = contents fs \<and> refusal fs' = refusal fs
     \<and> stdout_error fs' = stdout_error fs
     \<and> dirs fs \<subseteq> dirs fs' \<and> dirs fs' \<subseteq> dirs fs \<union> set (prefixes (path_parts p))"
proof (cases "path_parts p \<in> dirs fs")
  case True
  with assms show ?thesis by (simp add: mkdir_parents_def)
next
  case False
  with assms have "mkdir_loop fs (prefixes (path_parts p)) = (r, fs')"
    by (simp add: mkdir_parents_def)
  then show ?thesis by (rule mkdir_loop_frame)
qed

lemma mkdir_parents_Inr:
  assumes "mkdir_parents fs p = (Inr u, fs')"
  shows "path_parts p \<in> dirs fs'" "contents fs' = contents fs" "refusal fs' = refusal fs"
    "stdout_error fs' = stdout_error fs" "dirs fs \<subseteq> dirs fs'" "dirs fs' \<subseteq> dirs fs \<union> set (prefixes (path_parts p))"
    "path_parts p \<in> dirs fs \<Longrightarrow> fs' = fs"
proof -
  from mkdir_parents_frame [OF assms]
  show "contents fs' = contents fs" "refusal fs' = refusal fs"
    "stdout_error fs' = stdout_error fs" "dirs fs \<subseteq> dirs fs'"
    "dirs fs' \<subseteq> dirs fs \<union> set (prefixes (path_parts p))"
    by simp_all
  show "fs' = fs" if "path_parts p \<in> dirs fs"
    using that assms by (simp add: mkdir_parents_def)
  show "path_parts p \<in> dirs fs'"
  proof (cases "path_parts p \<in> dirs fs")
    case True
    with assms show ?thesis by (simp add: mkdir_parents_def)
  next
    case False
    with assms have "mkdir_loop fs (prefixes (path_parts p)) = (Inr u, fs')"
      by (simp add: mkdir_parents_def)
    then have "set (prefixes (path_parts p)) \<subseteq> dirs fs'" by (rule mkdir_loop_Inr)
    then show ?thesis by auto
  qed
qed


lemma py_print_cases:
  obtains (raised) e where "stdout_error (fsys w) ev = Some e" "py_print w ev = (Inl e, w)"
    | (printed) "stdout_error (fsys w) ev = None" "py_print w ev = (Inr (), emit ev w)"
  by (cases "stdout_error (fsys w) ev") (auto simp: py_print_def)





lemma world_eq: "fsys w = fsys w' \<Longrightarrow> trace w = trace w' \<Longrightarrow> (w :: world) = w'"
  by simp






lemma ensure_target_dir_cases:
  obtains (there) "isdir (fsys w) tdir" "ensure_target_dir w tdir = (Inr (), w)"
    | (refused) e fs' e' where "\<not> isdir (fsys w) tdir"
        "mkdir_parents (fsys w) tdir = (Inl e, fs')"
        "ensure_target_dir w tdir = (Inl e', w\<lparr>fsys := fs'\<rparr>)"
    | (silent) fs' e' where "\<not> isdir (fsys w) tdir"
        "mkdir_parents (fsys w) tdir = (Inr (), fs')"
        "ensure_target_dir w tdir = (Inl e', w\<lparr>fsys := fs'\<rparr>)"
    | (made) fs' where "\<not> isdir (fsys w) tdir" "mkdir_parents (fsys w) tdir = (Inr (), fs')"
        "ensure_target_dir w tdir = (Inr (), emit (Print_directory_created tdir) (w\<lparr>fsys := fs'\<rparr>))"
proof (cases "isdir (fsys w) tdir")
  case True
  then show ?thesis using there by (simp add: ensure_target_dir_def)
next
  case nd: False
  obtain r fs' where m: "mkdir_parents (fsys w) tdir = (r, fs')"
    by (cases "mkdir_parents (fsys w) tdir")
  show ?thesis
  proof (cases r)
    case (Inl e)
    have "\<exists>e'. ensure_target_dir w tdir = (Inl e', w\<lparr>fsys := fs'\<rparr>)"
      using nd m Inl by (cases "isinstance e OSError") (simp_all add: ensure_target_dir_def)
    then show ?thesis using refused nd m Inl by blast
  next
    case (Inr u)
    show ?thesis
    proof (cases rule: py_print_cases
        [where w = "w\<lparr>fsys := fs'\<rparr>" and ev = "Print_directory_created tdir"])
      case (raised e)
      have "\<exists>e'. ensure_target_dir w tdir = (Inl e', w\<lparr>fsys := fs'\<rparr>)"
        using nd m Inr raised(2)
        by (cases "isinstance e OSError") (simp_all add: ensure_target_dir_def)
      then show ?thesis using silent nd m Inr by auto
    next
      case printed
      then show ?thesis using made nd m Inr by (simp add: ensure_target_dir_def)
    qed
  qed
qed


lemma ensure_target_dir_Inr:
  assumes "ensure_target_dir w tdir = (Inr u, w1)"
  shows "path_parts tdir \<in> dirs (fsys w1) \<and> (path_parts tdir \<in> dirs (fsys w) \<longrightarrow> w1 = w)"
proof (cases rule: ensure_target_dir_cases [where w = w and tdir = tdir])
  case there
  with assms show ?thesis by (simp add: isdir_def)
next
  case (refused e fs' e')
  with assms show ?thesis by simp
next
  case (silent fs' e')
  with assms show ?thesis by simp
next
  case (made fs')
  from mkdir_parents_Inr(1) [OF made(2)] made(1,3) assms show ?thesis by (auto simp: isdir_def)
qed





section \<open>The loop body\<close>

































section \<open>The batch\<close>






lemma dest_key_length [simp]: "length (dest_key t c f) = length (path_parts t) + 2"
  by (simp add: dest_key_def)











section \<open>The claims about the batch\<close>









end
